theory Spec2Isabelle
  imports Complex_Main
begin

section \<open>Basic Object Notation: the document model and the parser\<close>

text \<open>
  A shallow embedding of \<^verbatim>\<open>BasicObjectNotation.py\<close>. Text is a list of characters;
  the model covers ASCII text (\<^verbatim>\<open>isalpha\<close> and \<^verbatim>\<open>isdigit\<close> are given for the ASCII letters
  and digits). Exceptions are values of the type \<open>error\<close>, a routine that mutates the
  parser's queue returns the queue it leaves behind.
\<close>

subsection \<open>Characters and the built-ins of the host language\<close>

abbreviation backslash :: char where "backslash \<equiv> CHR 0x5C"
abbreviation dquote :: char where "dquote \<equiv> CHR 0x22"
abbreviation squote :: char where "squote \<equiv> CHR 0x27"
abbreviation tab :: char where "tab \<equiv> CHR 0x09"
abbreviation newline :: char where "newline \<equiv> CHR 0x0A"
abbreviation space :: char where "space \<equiv> CHR 0x20"

text \<open>
  The exceptions the code can raise. The first seven are the \<^verbatim>\<open>Exception(message)\<close> values
  of the parser, named after their messages; the others are built-in exceptions:
  \<open>TypeError\<close> is raised by \<^verbatim>\<open>raise 'Invalid type, expected BONNode.'\<close> (a string is not
  an exception) and by \<^verbatim>\<open>None[:]\<close>, \<open>KeyError\<close> by a failed dictionary lookup and by
  \<^verbatim>\<open>__getitem__\<close> and \<^verbatim>\<open>__delitem__\<close>, \<open>ValueError\<close> by \<^verbatim>\<open>int\<close> and \<^verbatim>\<open>float\<close> on a
  malformed string, \<open>AttributeError\<close> by \<^verbatim>\<open>.key\<close> on a value that is not a node.
\<close>

datatype error =
    Float_token_too_many
  | Float_token_misplaced
  | Expected_quote
  | Malformed_list
  | Expected_semicolon
  | Expected_open_brace
  | Expected_close_brace
  | TypeError
  | KeyError
  | ValueError
  | AttributeError

definition isalpha :: "char \<Rightarrow> bool" where
  "isalpha c = (let n = (of_char c :: nat) in (65 \<le> n \<and> n \<le> 90) \<or> (97 \<le> n \<and> n \<le> 122))"

definition isdigit :: "char \<Rightarrow> bool" where
  "isdigit c = (let n = (of_char c :: nat) in 48 \<le> n \<and> n \<le> 57)"

text \<open>Whitespace in the sense of \<^verbatim>\<open>str.isspace\<close>, on ASCII.\<close>

definition isspace :: "char \<Rightarrow> bool" where
  "isspace c = (let n = (of_char c :: nat) in (9 \<le> n \<and> n \<le> 13) \<or> (28 \<le> n \<and> n \<le> 32))"

text \<open>\<^verbatim>\<open>s.strip()\<close> and \<^verbatim>\<open>s.strip(c)\<close> for a one-character argument.\<close>

definition strip :: "string \<Rightarrow> string" where
  "strip s = rev (dropWhile isspace (rev (dropWhile isspace s)))"

definition lstrip :: "string \<Rightarrow> string" where
  "lstrip s = dropWhile isspace s"

definition strip_char :: "char \<Rightarrow> string \<Rightarrow> string" where
  "strip_char c s = rev (dropWhile (\<lambda>x. x = c) (rev (dropWhile (\<lambda>x. x = c) s)))"

text \<open>\<^verbatim>\<open>s.rindex(c)\<close>: the highest index of \<open>c\<close>; \<open>None\<close> where the source raises.\<close>

fun rindex :: "string \<Rightarrow> char \<Rightarrow> nat option" where
  "rindex [] c = None"
| "rindex (x # xs) c =
     (case rindex xs c of
        Some i \<Rightarrow> Some (Suc i)
      | None \<Rightarrow> if x = c then Some 0 else None)"

definition digit_val :: "char \<Rightarrow> int" where
  "digit_val c = int (of_char c) - 48"

definition digits_val :: "string \<Rightarrow> int" where
  "digits_val ds = foldl (\<lambda>a c. 10 * a + digit_val c) 0 ds"

text \<open>An optional sign in front of a numeral: the sign as a factor, and the rest.\<close>

fun split_sign :: "string \<Rightarrow> int \<times> string" where
  "split_sign [] = (1, [])"
| "split_sign (c # cs) =
     (if c = CHR ''-'' then (- 1, cs) else if c = CHR ''+'' then (1, cs) else (1, c # cs))"

text \<open>
  The interpreter's limit on the number of digits of an integer string conversion
  (\<^verbatim>\<open>sys.get_int_max_str_digits()\<close>), at its default.
\<close>

definition int_max_str_digits :: nat where
  "int_max_str_digits = 4300"

text \<open>
  \<^verbatim>\<open>int(s)\<close> in base 10: surrounding whitespace is stripped, a sign is allowed, and what
  remains must be a non-empty run of digits (the digit grouping with underscores is left
  out: the parser only converts strings of digits and spaces). A run of more digits than
  the limit, leading zeros counted, is a \<^verbatim>\<open>ValueError\<close> as well.
\<close>

definition py_int :: "string \<Rightarrow> error + int" where
  "py_int s =
     (case split_sign (strip s) of
        (sg, ds) \<Rightarrow>
          if ds \<noteq> [] \<and> list_all isdigit ds then
            (if int_max_str_digits < length ds then Inl ValueError else Inr (sg * digits_val ds))
          else Inl ValueError)"

definition pow10 :: "int \<Rightarrow> rat" where
  "pow10 e = (if 0 \<le> e then 10 ^ nat e else 1 / 10 ^ nat (- e))"

text \<open>
  The exponent part of a float literal: empty, or \<^verbatim>\<open>e\<close> or \<^verbatim>\<open>E\<close>, an optional sign and a
  non-empty run of digits.
\<close>

definition float_exponent :: "string \<Rightarrow> int option" where
  "float_exponent s =
     (case s of
        [] \<Rightarrow> Some 0
      | c # cs \<Rightarrow>
          if c = CHR ''e'' \<or> c = CHR ''E'' then
            (case split_sign cs of
               (sg, ds) \<Rightarrow> if ds \<noteq> [] \<and> list_all isdigit ds then Some (sg * digits_val ds) else None)
          else None)"

text \<open>
  \<^verbatim>\<open>float(s)\<close>: surrounding whitespace is stripped; then a sign, digits with at most one
  point and at least one digit, and an exponent. The result is the rational number the
  literal denotes: a \<open>PyFloat r\<close> below stands for the float nearest to \<open>r\<close>, the rounding
  to binary floating point is not part of the model (nor are \<^verbatim>\<open>inf\<close>, \<^verbatim>\<open>nan\<close> and digit
  grouping, which the characters the number routine collects cannot spell).
\<close>

definition py_float :: "string \<Rightarrow> error + rat" where
  "py_float s =
     (case split_sign (strip s) of
        (sg, t) \<Rightarrow>
          (let ip = takeWhile isdigit t;
               r1 = dropWhile isdigit t;
               has_point = (r1 \<noteq> [] \<and> hd r1 = CHR ''.'');
               fp = (if has_point then takeWhile isdigit (tl r1) else []);
               r2 = (if has_point then dropWhile isdigit (tl r1) else r1)
           in if ip = [] \<and> fp = [] then Inl ValueError
              else (case float_exponent r2 of
                      None \<Rightarrow> Inl ValueError
                    | Some e \<Rightarrow>
                        Inr (of_int (sg * digits_val (ip @ fp)) * pow10 (e - int (length fp))))))"

subsection \<open>The character queue\<close>

text \<open>
  \<^verbatim>\<open>TextQueue\<close> is a deque whose right end is the front of the queue: \<^verbatim>\<open>push\<close> is
  \<^verbatim>\<open>appendleft\<close>, \<^verbatim>\<open>pop\<close> (inherited) removes the rightmost element, and
  \<^verbatim>\<open>peek(i)\<close> reads \<^verbatim>\<open>self[len(self) - (1 + i)]\<close>. The model lists the queue front first, so
  the deque is the reverse of the list: \<open>push\<close> appends at the end, \<open>pop\<close> takes the
  head, \<open>peek q i\<close> is the \<open>i\<close>-th element.
\<close>

type_synonym TextQueue = "char list"

definition is_empty :: "TextQueue \<Rightarrow> bool" where
  "is_empty q = (length q = 0)"

definition peek :: "TextQueue \<Rightarrow> nat \<Rightarrow> char option" where
  "peek q index = (if length q > index then Some (q ! index) else None)"

definition push :: "TextQueue \<Rightarrow> char \<Rightarrow> TextQueue" where
  "push q char = q @ [char]"

text \<open>\<^verbatim>\<open>deque.pop\<close>: \<open>None\<close> is the \<^verbatim>\<open>IndexError\<close> of an empty deque.\<close>

definition pop :: "TextQueue \<Rightarrow> (char \<times> TextQueue) option" where
  "pop q = (case q of [] \<Rightarrow> None | c # q' \<Rightarrow> Some (c, q'))"

text \<open>\<^verbatim>\<open>TextQueue(data)\<close>: every character of the string is pushed.\<close>

definition TextQueue_init :: "string \<Rightarrow> TextQueue" where
  "TextQueue_init data = foldl push [] data"

text \<open>
  \<^verbatim>\<open>__iter__\<close> yields \<^verbatim>\<open>self.peek(x)\<close> for \<open>x\<close> in \<^verbatim>\<open>range(0, len(self))\<close>, and
  \<^verbatim>\<open>__str__\<close> joins what it yields.
\<close>

definition iter :: "TextQueue \<Rightarrow> char list" where
  "iter q = List.map_filter (peek q) [0..<length q]"

definition str :: "TextQueue \<Rightarrow> string" where
  "str q = iter q"

subsection \<open>The document model\<close>

text \<open>
  The values a parse can return. A node's key is \<^verbatim>\<open>None\<close> or a string, as the node
  routine builds it; an object holds the list it was given.
\<close>

datatype bon_value =
    PyNone
  | PyStr string
  | PyInt int
  | PyFloat rat
  | PyList "bon_value list"
  | PyNode BONNode
  | PyObject BONObject
and BONNode = BONNode (key: "string option") (val: bon_value)
and BONObject = BONObject (nodes: "bon_value list")

datatype BONType = T_string | T_number | T_bon_object | T_bon_list | T_bon_node | T_invalid

text \<open>
  \<^verbatim>\<open>node.key == item\<close>, for a key that is \<^verbatim>\<open>None\<close> or a string: \<^verbatim>\<open>None\<close> equals only
  \<^verbatim>\<open>None\<close>, a string equals only the same string.
\<close>

fun key_eq :: "string option \<Rightarrow> bon_value \<Rightarrow> bool" where
  "key_eq None item = (item = PyNone)"
| "key_eq (Some s) item = (item = PyStr s)"

text \<open>
  \<^verbatim>\<open>BONObject.__init__(self, nodes: list = None)\<close>: \<^verbatim>\<open>self.nodes = nodes[:]\<close>. The
  argument is \<open>None\<close> (the declared default) or a list; slicing \<^verbatim>\<open>None\<close> is a
  \<^verbatim>\<open>TypeError\<close>, slicing a list copies it.
\<close>

fun BONObject_init :: "bon_value list option \<Rightarrow> error + BONObject" where
  "BONObject_init None = Inl TypeError"
| "BONObject_init (Some ns) = Inr (BONObject ns)"

text \<open>
  \<^verbatim>\<open>BONObject.__contains__\<close>: the loop over \<^verbatim>\<open>self.nodes\<close> returns \<^verbatim>\<open>True\<close> at the first
  node whose key equals the item. Reading \<^verbatim>\<open>.key\<close> of an element that is not a node is
  an \<^verbatim>\<open>AttributeError\<close>.
\<close>

fun contains_loop :: "bon_value list \<Rightarrow> bon_value \<Rightarrow> error + bool" where
  "contains_loop [] item = Inr False"
| "contains_loop (PyNode node # ns) item =
     (if key_eq (key node) item then Inr True else contains_loop ns item)"
| "contains_loop (_ # ns) item = Inl AttributeError"

definition contains :: "BONObject \<Rightarrow> bon_value \<Rightarrow> error + bool" where
  "contains obj item = contains_loop (nodes obj) item"

text \<open>\<^verbatim>\<open>BONNode.__contains__\<close>, for an item compared with the value by structural equality.\<close>

definition node_contains :: "BONNode \<Rightarrow> bon_value \<Rightarrow> bool" where
  "node_contains node item = (key_eq (key node) item \<or> val node = item)"

text \<open>\<^verbatim>\<open>BONObject.__getitem__\<close>: the value of the first node with the key.\<close>

fun getitem_loop :: "bon_value list \<Rightarrow> bon_value \<Rightarrow> error + bon_value" where
  "getitem_loop [] item = Inl KeyError"
| "getitem_loop (PyNode node # ns) item =
     (if key_eq (key node) item then Inr (val node) else getitem_loop ns item)"
| "getitem_loop (_ # ns) item = Inl AttributeError"

definition getitem :: "BONObject \<Rightarrow> bon_value \<Rightarrow> error + bon_value" where
  "getitem obj item = getitem_loop (nodes obj) item"

text \<open>
  \<^verbatim>\<open>BONObject.__delitem__\<close>. The loop over \<^verbatim>\<open>enumerate(self.nodes)\<close> runs to the end and
  keeps in \<open>index\<close> the position of the last node with the key (\<open>None\<close> at first). Then
  \<^verbatim>\<open>if not index: raise KeyError\<close>, where \<^verbatim>\<open>not index\<close> holds for \<^verbatim>\<open>None\<close> and for
  \<^verbatim>\<open>0\<close>; otherwise \<^verbatim>\<open>del self.nodes[index]\<close>. The result is the object after the call.
\<close>

fun delitem_loop :: "(nat \<times> bon_value) list \<Rightarrow> bon_value \<Rightarrow> nat option \<Rightarrow> error + nat option" where
  "delitem_loop [] k index = Inr index"
| "delitem_loop ((loop_index, PyNode node) # rest) k index =
     delitem_loop rest k (if key_eq (key node) k then Some loop_index else index)"
| "delitem_loop (_ # rest) k index = Inl AttributeError"

definition py_not_index :: "nat option \<Rightarrow> bool" where
  "py_not_index index = (case index of None \<Rightarrow> True | Some i \<Rightarrow> i = 0)"

definition delitem :: "BONObject \<Rightarrow> bon_value \<Rightarrow> error + BONObject" where
  "delitem obj k =
     (case delitem_loop (enumerate 0 (nodes obj)) k None of
        Inl e \<Rightarrow> Inl e
      | Inr index \<Rightarrow>
          if py_not_index index then Inl KeyError
          else Inr (BONObject (take (the index) (nodes obj) @ drop (Suc (the index)) (nodes obj))))"

subsection \<open>The lexical classifier\<close>

text \<open>The dictionary \<^verbatim>\<open>opening_map\<close> and the character classes of the parser.\<close>

definition opening_map :: "char \<Rightarrow> BONType option" where
  "opening_map c =
     (if c = CHR ''{'' then Some T_bon_object
      else if c = CHR ''['' then Some T_bon_list
      else if c = dquote then Some T_string
      else if c = squote then Some T_string
      else if c = CHR '':'' then Some T_bon_node
      else None)"

definition invalid_chars :: "char list" where
  "invalid_chars = [tab, newline]"

definition integer_digits :: string where
  "integer_digits = ''0123456789''"

definition float_digits :: string where
  "float_digits = ''0123456789.fe-''"

text \<open>
  \<^verbatim>\<open>BONParser(data)\<close>: newlines and tabs are removed and the rest is loaded into the
  queue \<^verbatim>\<open>self.text\<close>, the only mutable state of the parser.
\<close>

definition BONParser :: "string \<Rightarrow> TextQueue" where
  "BONParser data =
     TextQueue_init (filter (\<lambda>c. c \<noteq> tab) (filter (\<lambda>c. c \<noteq> newline) data))"

text \<open>
  \<^verbatim>\<open>determine_type\<close>. The loop \<^verbatim>\<open>for char in self.text\<close> runs the generator of the queue:
  the positions \<open>x\<close> of \<^verbatim>\<open>range(0, len(self))\<close>, each read with \<^verbatim>\<open>peek\<close>. The function
  returns the kind together with the queue as the call leaves it. (A \<^verbatim>\<open>peek\<close> that
  yields nothing cannot happen for these positions.)
\<close>

fun determine_type_loop :: "TextQueue \<Rightarrow> nat list \<Rightarrow> bool \<Rightarrow> bool \<Rightarrow> BONType \<times> TextQueue" where
  "determine_type_loop text [] is_escaped alpha_found = (T_invalid, text)"
| "determine_type_loop text (x # xs) is_escaped alpha_found =
     (case peek text x of
        None \<Rightarrow> (T_invalid, text)
      | Some char \<Rightarrow>
          if \<not> is_escaped \<and> opening_map char \<noteq> None then (the (opening_map char), text)
          else if \<not> is_escaped \<and> isalpha char \<and> \<not> alpha_found then
            determine_type_loop text xs (char = backslash \<and> \<not> is_escaped) True
          else if \<not> is_escaped \<and> isdigit char \<and> \<not> alpha_found then (T_number, text)
          else determine_type_loop text xs (char = backslash \<and> \<not> is_escaped) alpha_found)"

definition determine_type :: "TextQueue \<Rightarrow> BONType \<times> TextQueue" where
  "determine_type text = determine_type_loop text [0..<length text] False False"

text \<open>The same scan written over the characters themselves.\<close>

fun scan_type :: "bool \<Rightarrow> bool \<Rightarrow> char list \<Rightarrow> BONType" where
  "scan_type is_escaped alpha_found [] = T_invalid"
| "scan_type is_escaped alpha_found (char # cs) =
     (if \<not> is_escaped \<and> opening_map char \<noteq> None then the (opening_map char)
      else if \<not> is_escaped \<and> isalpha char \<and> \<not> alpha_found then
        scan_type (char = backslash \<and> \<not> is_escaped) True cs
      else if \<not> is_escaped \<and> isdigit char \<and> \<not> alpha_found then T_number
      else scan_type (char = backslash \<and> \<not> is_escaped) alpha_found cs)"

subsection \<open>Numbers and strings\<close>

text \<open>
  \<^verbatim>\<open>parse_float\<close>: at most one \<^verbatim>\<open>f\<close>, and only as the last character; then
  \<^verbatim>\<open>float(data.strip('f'))\<close>.
\<close>

definition parse_float :: "string \<Rightarrow> error + bon_value" where
  "parse_float data =
     (if count_list data (CHR ''f'') > 1 then Inl Float_token_too_many
      else if CHR ''f'' \<in> set data \<and> rindex data (CHR ''f'') \<noteq> Some (length data - 1) then
        Inl Float_token_misplaced
      else (case py_float (strip_char (CHR ''f'') data) of
              Inl e \<Rightarrow> Inl e
            | Inr r \<Rightarrow> Inr (PyFloat r)))"

text \<open>
  \<^verbatim>\<open>parse_number\<close>. The loop moves characters from the front of the queue into the
  buffer while they are in \<^verbatim>\<open>float_digits\<close> or spaces; it returns the queue and the buffer.
\<close>

fun parse_number_loop :: "TextQueue \<Rightarrow> TextQueue \<Rightarrow> TextQueue \<times> TextQueue" where
  "parse_number_loop [] buffer = ([], buffer)"
| "parse_number_loop (c # data) buffer =
     (if c \<in> set float_digits \<or> c = space then parse_number_loop data (push buffer c)
      else (c # data, buffer))"

definition parse_number :: "TextQueue \<Rightarrow> error + bon_value \<times> TextQueue" where
  "parse_number data =
     (case parse_number_loop data [] of
        (data', buffer) \<Rightarrow>
          if list_all (\<lambda>x. x \<in> set integer_digits \<or> x = space) (iter buffer) then
            (case py_int (str buffer) of
               Inl e \<Rightarrow> Inl e
             | Inr i \<Rightarrow> Inr (PyInt i, data'))
          else
            (case parse_float (str buffer) of
               Inl e \<Rightarrow> Inl e
             | Inr v \<Rightarrow> Inr (v, data')))"

text \<open>
  \<^verbatim>\<open>parse_string\<close>: the loop \<^verbatim>\<open>while not data.is_empty: char = data.pop() ...\<close>, with the
  buffer and the two flags as arguments. An exhausted queue is the final \<^verbatim>\<open>raise\<close>.
\<close>

fun parse_string_loop ::
  "TextQueue \<Rightarrow> TextQueue \<Rightarrow> bool \<Rightarrow> bool \<Rightarrow> error + bon_value \<times> TextQueue" where
  "parse_string_loop [] buffer start_found is_escaped = Inl Expected_quote"
| "parse_string_loop (char # data) buffer start_found is_escaped =
     (if start_found \<and> \<not> is_escaped \<and> (char = dquote \<or> char = squote) then
        Inr (PyStr (str buffer), data)
      else if start_found \<and> char \<notin> set invalid_chars then
        (if \<not> char = backslash \<or> is_escaped then
           parse_string_loop data (push buffer char) start_found (char = backslash \<and> \<not> is_escaped)
         else parse_string_loop data buffer start_found (char = backslash \<and> \<not> is_escaped))
      else if char = dquote \<or> char = squote then
        parse_string_loop data buffer True (char = backslash \<and> \<not> is_escaped)
      else parse_string_loop data buffer start_found (char = backslash \<and> \<not> is_escaped))"

definition parse_string :: "TextQueue \<Rightarrow> error + bon_value \<times> TextQueue" where
  "parse_string data = parse_string_loop data [] False False"

subsection \<open>The mutually recursive routines\<close>

text \<open>
  \<^verbatim>\<open>parse_value\<close>, \<^verbatim>\<open>parse_list\<close>, \<^verbatim>\<open>parse_node\<close> and \<^verbatim>\<open>parse_object\<close> call each other, all
  on the parser's own queue. Each loop is a function of the queue and the loop's local
  variables. The first argument is fuel: every call and every loop iteration spends one
  unit, and \<open>None\<close> means that the fuel ran out before the routine returned or raised.
  \<open>Some (Inl e)\<close> is the exception \<open>e\<close>, \<open>Some (Inr (v, text))\<close> the returned value and the
  queue left behind.

  In \<^verbatim>\<open>parse_value\<close> the lookup \<^verbatim>\<open>type_map[type]\<close> has no entry for \<^verbatim>\<open>BONType.invalid\<close>: a
  \<^verbatim>\<open>KeyError\<close>. \<^verbatim>\<open>parse_list\<close> falls off its loop when the queue is exhausted and so returns
  \<^verbatim>\<open>None\<close>. In \<^verbatim>\<open>parse_object\<close> the character is peeked, and popped in the branches that
  pop it; its local list \<^verbatim>\<open>nodes\<close> is \<open>nodes_acc\<close> here, and the local \<^verbatim>\<open>key\<close> and
  \<^verbatim>\<open>value\<close> of \<^verbatim>\<open>parse_node\<close> are \<open>k\<close> and \<open>v\<close>.
\<close>

fun parse_value :: "nat \<Rightarrow> TextQueue \<Rightarrow> (error + bon_value \<times> TextQueue) option"
and parse_list_loop ::
  "nat \<Rightarrow> TextQueue \<Rightarrow> bon_value list \<Rightarrow> bool \<Rightarrow> (error + bon_value \<times> TextQueue) option"
and parse_node_loop ::
  "nat \<Rightarrow> TextQueue \<Rightarrow> TextQueue \<Rightarrow> string option \<Rightarrow> bon_value \<Rightarrow>
    (error + bon_value \<times> TextQueue) option"
and parse_object_loop ::
  "nat \<Rightarrow> TextQueue \<Rightarrow> bon_value list \<Rightarrow> bool \<Rightarrow> (error + bon_value \<times> TextQueue) option"
where
  "parse_value 0 text = None"
| "parse_value (Suc n) text =
     (case determine_type text of
        (type, text) \<Rightarrow>
          (case type of
             T_number \<Rightarrow> Some (parse_number text)
           | T_string \<Rightarrow> Some (parse_string text)
           | T_bon_node \<Rightarrow> parse_node_loop n text [] None PyNone
           | T_bon_list \<Rightarrow> parse_list_loop n text [] False
           | T_bon_object \<Rightarrow> parse_object_loop n text [] False
           | T_invalid \<Rightarrow> Some (Inl KeyError)))"
| "parse_list_loop 0 data new_list start_found = None"
| "parse_list_loop (Suc n) [] new_list start_found = Some (Inr (PyNone, []))"
| "parse_list_loop (Suc n) (char # data) new_list start_found =
     (if (start_found \<or> char = CHR ''['') then
        (if char = CHR '','' \<or> char = CHR ''['' then
           (case parse_value n data of
              None \<Rightarrow> None
            | Some (Inl e) \<Rightarrow> Some (Inl e)
            | Some (Inr (v, data')) \<Rightarrow> parse_list_loop n data' (new_list @ [v]) True)
         else if char = CHR '']'' then Some (Inr (PyList new_list, data))
         else if char \<noteq> space then Some (Inl Malformed_list)
         else parse_list_loop n data new_list True)
      else parse_list_loop n data new_list False)"
| "parse_node_loop 0 data buffer k v = None"
| "parse_node_loop (Suc n) [] buffer k v = Some (Inl Expected_semicolon)"
| "parse_node_loop (Suc n) (char # data) buffer k v =
     (if char = CHR '':'' then
        (case parse_value n data of
           None \<Rightarrow> None
         | Some (Inl e) \<Rightarrow> Some (Inl e)
         | Some (Inr (v', data')) \<Rightarrow>
             parse_node_loop n data' buffer (Some (lstrip (strip (str buffer)))) v')
      else if char = CHR '';'' then Some (Inr (PyNode (BONNode k v), data))
      else if char \<noteq> space \<and> k = None then parse_node_loop n data (push buffer char) k v
      else parse_node_loop n data buffer k v)"
| "parse_object_loop 0 data nodes_acc start_found = None"
| "parse_object_loop (Suc n) [] nodes_acc start_found =
     Some (Inl (if \<not> start_found then Expected_open_brace else Expected_close_brace))"
| "parse_object_loop (Suc n) (char # data) nodes_acc start_found =
     (if char = CHR ''{'' then
        (case determine_type data of
           (type, data) \<Rightarrow>
             if type \<noteq> T_bon_node then Some (Inl TypeError)
             else
               (case parse_value n data of
                  None \<Rightarrow> None
                | Some (Inl e) \<Rightarrow> Some (Inl e)
                | Some (Inr (v, data')) \<Rightarrow> parse_object_loop n data' (nodes_acc @ [v]) True))
      else if char = CHR ''}'' then
        (case BONObject_init (Some nodes_acc) of
           Inl e \<Rightarrow> Some (Inl e)
         | Inr obj \<Rightarrow> Some (Inr (PyObject obj, data)))
      else if start_found \<and> char \<noteq> space then
        (case determine_type (char # data) of
           (type, text) \<Rightarrow>
             if type \<noteq> T_bon_node then Some (Inl TypeError)
             else
               (case parse_value n text of
                  None \<Rightarrow> None
                | Some (Inl e) \<Rightarrow> Some (Inl e)
                | Some (Inr (v, data')) \<Rightarrow> parse_object_loop n data' (nodes_acc @ [v]) start_found))
      else parse_object_loop n data nodes_acc start_found)"


definition parse_node :: "nat \<Rightarrow> TextQueue \<Rightarrow> (error + bon_value \<times> TextQueue) option" where
  "parse_node n data = parse_node_loop n data [] None PyNone"

definition parse_object :: "nat \<Rightarrow> TextQueue \<Rightarrow> (error + bon_value \<times> TextQueue) option" where
  "parse_object n data = parse_object_loop n data [] False"

text \<open>The driver's use of the parser: \<^verbatim>\<open>BONParser(data).parse_value()\<close>.\<close>

definition parse :: "nat \<Rightarrow> string \<Rightarrow> (error + bon_value \<times> TextQueue) option" where
  "parse n data = parse_value n (BONParser data)"

subsection \<open>Notions used in the statements\<close>

text \<open>The two errors of \<^verbatim>\<open>parse_float\<close> about the token \<^verbatim>\<open>f\<close>.\<close>

definition float_token_error :: "error + 'a \<Rightarrow> bool" where
  "float_token_error r = (r = Inl Float_token_too_many \<or> r = Inl Float_token_misplaced)"

text \<open>A quote character of either style.\<close>

definition is_quote :: "char \<Rightarrow> bool" where
  "is_quote c = (c = dquote \<or> c = squote)"

text \<open>
  The escape state of the string routine: it holds exactly after an unescaped backslash.
  \<open>escaped_after esc cs\<close> is the state after the characters \<open>cs\<close>, read from the state
  \<open>esc\<close>; \<open>has_unescaped_quote esc cs\<close> says that some quote character of \<open>cs\<close> is read
  in the unescaped state.
\<close>

fun escaped_after :: "bool \<Rightarrow> string \<Rightarrow> bool" where
  "escaped_after esc [] = esc"
| "escaped_after esc (c # cs) = escaped_after (c = backslash \<and> \<not> esc) cs"

fun has_unescaped_quote :: "bool \<Rightarrow> string \<Rightarrow> bool" where
  "has_unescaped_quote esc [] = False"
| "has_unescaped_quote esc (c # cs) =
     (if is_quote c \<and> \<not> esc then True else has_unescaped_quote (c = backslash \<and> \<not> esc) cs)"

text \<open>
  The text a string body stands for: an unescaped backslash is dropped and escapes the
  character after it, tabs and newlines are dropped, every other character is kept.
\<close>

fun string_content :: "bool \<Rightarrow> string \<Rightarrow> string" where
  "string_content esc [] = []"
| "string_content esc (c # cs) =
     (if c = tab \<or> c = newline then string_content (c = backslash \<and> \<not> esc) cs
      else if c = backslash \<and> \<not> esc then string_content True cs
      else c # string_content False cs)"




section \<open>Basic facts about the model\<close>

text \<open>The generator yields the queue front to back, and loading a string keeps its order.\<close>

lemma peek_nth: "x < length q \<Longrightarrow> peek q x = Some (q ! x)"
  by (simp add: peek_def)

lemma iter_eq [simp]: "iter q = q"
proof -
  have "List.map_filter (peek q) [0..<length q] = map (\<lambda>x. q ! x) [0..<length q]"
    by (simp add: List.map_filter_def peek_def cong: map_cong)
  then show ?thesis by (simp add: iter_def map_nth)
qed

lemma str_eq [simp]: "str q = q"
  by (simp add: str_def)

lemma foldl_push: "foldl push acc data = acc @ data"
  by (induction data arbitrary: acc) (simp_all add: push_def)

lemma TextQueue_init_eq [simp]: "TextQueue_init data = data"
  by (simp add: TextQueue_init_def foldl_push)

lemma determine_type_loop_scan:
  "k \<le> length text \<Longrightarrow>
     determine_type_loop text [k..<length text] e a = (scan_type e a (drop k text), text)"
proof (induction "length text - k" arbitrary: k e a)
  case 0
  then show ?case by simp
next
  case (Suc m)
  then have lt: "k < length text" by simp
  have upt: "[k..<length text] = k # [Suc k..<length text]"
    using lt by (simp add: upt_conv_Cons)
  have drp: "drop k text = text ! k # drop (Suc k) text"
    using lt by (simp add: Cons_nth_drop_Suc)
  have ih: "\<And>e a. determine_type_loop text [Suc k..<length text] e a =
      (scan_type e a (drop (Suc k) text), text)"
    using Suc.hyps(1) [of "Suc k"] Suc.hyps(2) lt by simp
  show ?case
    unfolding upt drp by (simp add: peek_nth [OF lt] ih)
qed

lemma determine_type_eq [simp]: "determine_type text = (scan_type False False text, text)"
  using determine_type_loop_scan [of 0 _ False False] by (simp add: determine_type_def)

text \<open>
  More fuel never changes a result: once a routine returns or raises with fuel \<open>n\<close>, it
  does the same with any larger amount.
\<close>

lemma fuel_mono_aux:
  "(\<forall>q. parse_value n q \<noteq> None \<longrightarrow> parse_value (n + k) q = parse_value n q) \<and>
   (\<forall>data l s. parse_list_loop n data l s \<noteq> None \<longrightarrow>
      parse_list_loop (n + k) data l s = parse_list_loop n data l s) \<and>
   (\<forall>data b ky v. parse_node_loop n data b ky v \<noteq> None \<longrightarrow>
      parse_node_loop (n + k) data b ky v = parse_node_loop n data b ky v) \<and>
   (\<forall>data l s. parse_object_loop n data l s \<noteq> None \<longrightarrow>
      parse_object_loop (n + k) data l s = parse_object_loop n data l s)"
proof (induction n)
  case 0
  then show ?case by simp
next
  case (Suc n)
  have v: "\<And>q. parse_value n q \<noteq> None \<Longrightarrow> parse_value (n + k) q = parse_value n q"
    and l: "\<And>data l s. parse_list_loop n data l s \<noteq> None \<Longrightarrow>
      parse_list_loop (n + k) data l s = parse_list_loop n data l s"
    and nd: "\<And>data b ky v. parse_node_loop n data b ky v \<noteq> None \<Longrightarrow>
      parse_node_loop (n + k) data b ky v = parse_node_loop n data b ky v"
    and ob: "\<And>data l s. parse_object_loop n data l s \<noteq> None \<Longrightarrow>
      parse_object_loop (n + k) data l s = parse_object_loop n data l s"
    using Suc by blast+
  have 1: "parse_value (Suc n + k) q = parse_value (Suc n) q" if "parse_value (Suc n) q \<noteq> None" for q
    using that by (auto split: BONType.splits simp: l nd ob)
  have 2: "parse_list_loop (Suc n + k) data l s = parse_list_loop (Suc n) data l s"
    if "parse_list_loop (Suc n) data l s \<noteq> None" for data l s
  proof (cases data)
    case Nil
    then show ?thesis using that by simp
  next
    case (Cons c cs)
    then show ?thesis using that
      by (auto split: if_splits option.splits sum.splits prod.splits simp: l v)
  qed
  have 3: "parse_node_loop (Suc n + k) data b ky vv = parse_node_loop (Suc n) data b ky vv"
    if "parse_node_loop (Suc n) data b ky vv \<noteq> None" for data b ky vv
  proof (cases data)
    case Nil
    then show ?thesis using that by simp
  next
    case (Cons c cs)
    then show ?thesis using that
      by (auto split: if_splits option.splits sum.splits prod.splits simp: nd v)
  qed
  have 4: "parse_object_loop (Suc n + k) data l s = parse_object_loop (Suc n) data l s"
    if "parse_object_loop (Suc n) data l s \<noteq> None" for data l s
  proof (cases data)
    case Nil
    then show ?thesis using that by simp
  next
    case (Cons c cs)
    then show ?thesis using that
      by (auto split: if_splits option.splits sum.splits prod.splits simp: ob v)
  qed
  show ?case using 1 2 3 4 by blast
qed

lemma parse_value_fuel:
  "parse_value n q = Some r \<Longrightarrow> n \<le> m \<Longrightarrow> parse_value m q = Some r"
  using fuel_mono_aux [of n "m - n"] by auto


lemma parse_object_loop_fuel:
  "parse_object_loop n data l s = Some r \<Longrightarrow> n \<le> m \<Longrightarrow> parse_object_loop m data l s = Some r"
  using fuel_mono_aux [of n "m - n"] by auto

lemma parse_fuel: "parse n data = Some r \<Longrightarrow> n \<le> m \<Longrightarrow> parse m data = Some r"
  unfolding parse_def by (rule parse_value_fuel)

section \<open>The document model\<close>

lemma contains_loop_nodes:
  "contains_loop (map PyNode ns) item = Inr (\<exists>n \<in> set ns. key_eq (key n) item)"
  by (induction ns) auto

text \<open>
  C3. Removal by key of a node that is present must delete it. The code fails where the
  last node with the key stands at position 0: \<^verbatim>\<open>if not index\<close> takes the index \<open>0\<close> for
  "not found". The object with the single node \<^verbatim>\<open>a: 1;\<close> holds the key \<^verbatim>\<open>a\<close>, and
  \<^verbatim>\<open>del obj['a']\<close> raises \<^verbatim>\<open>KeyError\<close>; the same removal succeeds for a node at position 1.
\<close>

theorem delitem_leading_node_KeyError:
  "delitem (BONObject [PyNode (BONNode (Some ''a'') (PyInt 1))]) (PyStr ''a'') = Inl KeyError \<and>
   delitem (BONObject [PyNode (BONNode (Some ''b'') (PyInt 2)),
                       PyNode (BONNode (Some ''a'') (PyInt 1))]) (PyStr ''a'')
     = Inr (BONObject [PyNode (BONNode (Some ''b'') (PyInt 2))])"
  by (simp add: delitem_def py_not_index_def)

text \<open>
  C4, as the claim states it: a node whose value equals the item would make the
  membership test true. For the object with the single node \<^verbatim>\<open>a: "x";\<close> and the item
  \<^verbatim>\<open>"x"\<close> the node's value equals the item, and the test returns \<^verbatim>\<open>False\<close>.
\<close>

theorem contains_value_counterexample:
  "val (BONNode (Some ''a'') (PyStr ''x'')) = PyStr ''x'' \<and>
   contains (BONObject [PyNode (BONNode (Some ''a'') (PyStr ''x''))]) (PyStr ''x'') = Inr False"
  by (simp add: contains_def)

text \<open>
  C4, amended: the membership test on an object is by key only. For every object made
  of nodes and every item, it returns \<^verbatim>\<open>True\<close> exactly when some node of the object has
  a key equal to the item, whatever the values of the nodes are.
\<close>

theorem contains_by_key:
  "contains (BONObject (map PyNode ns)) item = Inr (\<exists>n \<in> set ns. key_eq (key n) item)"
  by (simp add: contains_def contains_loop_nodes)

text \<open>
  C10. Constructing an object with the declared default \<^verbatim>\<open>None\<close> for \<^verbatim>\<open>nodes\<close> fails with
  a \<^verbatim>\<open>TypeError\<close>; constructing it from a list succeeds and stores the list.
\<close>

theorem BONObject_init_default_fails:
  "BONObject_init None = Inl TypeError \<and> BONObject_init (Some ns) = Inr (BONObject ns)"
  by simp

section \<open>The classifier\<close>

lemma determine_type_loop_frame: "snd (determine_type_loop q xs e a) = q"
  by (induction xs arbitrary: e a) (auto split: option.splits)

text \<open>
  C8. Whatever the queue holds and whatever kind is returned, \<^verbatim>\<open>determine_type\<close> leaves
  the queue as it found it: the same characters in the same order.
\<close>

theorem determine_type_frame: "snd (determine_type q) = q"
  by (simp only: determine_type_def determine_type_loop_frame)

section \<open>Numbers\<close>

lemma rindex_less: "rindex xs c = Some i \<Longrightarrow> i < length xs"
  by (induction xs arbitrary: i) (auto split: option.splits if_splits)

lemma rindex_None_iff: "rindex xs c = None \<longleftrightarrow> c \<notin> set xs"
  by (induction xs) (auto split: option.splits)

lemma rindex_snoc:
  "rindex (xs @ [x]) c = (if x = c then Some (length xs) else rindex xs c)"
  by (induction xs) (auto split: option.splits)

lemma count_list_snoc: "count_list (xs @ [x]) c = count_list xs c + (if x = c then 1 else 0)"
  by (induction xs) auto

lemma count_list_pos_iff: "0 < count_list xs c \<longleftrightarrow> c \<in> set xs"
  by (induction xs) auto

lemma py_float_error: "py_float s = Inl e \<Longrightarrow> e = ValueError"
  by (auto simp: py_float_def Let_def split: prod.splits option.splits if_splits)

lemma py_int_error: "py_int s = Inl e \<Longrightarrow> e = ValueError"
  by (auto simp: py_int_def split: prod.splits if_splits)

lemma parse_float_token_error:
  "float_token_error (parse_float data) \<longleftrightarrow>
     (1 < count_list data (CHR ''f'') \<or> CHR ''f'' \<in> set (butlast data))"
proof (cases data rule: rev_cases)
  case Nil
  then show ?thesis
    by (auto simp: float_token_error_def parse_float_def split: sum.splits dest: py_float_error)
next
  case (snoc xs x)
  show ?thesis
  proof (cases "x = CHR ''f''")
    case True
    then show ?thesis
      using snoc count_list_pos_iff [of xs "CHR ''f''"]
      by (auto simp: float_token_error_def parse_float_def rindex_snoc count_list_snoc
          split: sum.splits dest: py_float_error)
  next
    case False
    have "rindex xs (CHR ''f'') \<noteq> Some (length xs)"
      using rindex_less [of xs "CHR ''f''" "length xs"] by auto
    then show ?thesis
      using snoc False count_list_pos_iff [of xs "CHR ''f''"]
      by (auto simp: float_token_error_def parse_float_def rindex_snoc count_list_snoc
          split: sum.splits dest: py_float_error)
  qed
qed


lemma parse_number_token_error:
  "float_token_error (parse_number data) \<longleftrightarrow>
     (1 < count_list (snd (parse_number_loop data [])) (CHR ''f'') \<or>
      CHR ''f'' \<in> set (butlast (snd (parse_number_loop data []))))"
proof -
  obtain data' buffer where loop: "parse_number_loop data [] = (data', buffer)"
    by (cases "parse_number_loop data []") simp
  show ?thesis
  proof (cases "list_all (\<lambda>x. x \<in> set integer_digits \<or> x = space) buffer")
    case True
    have "\<not> (CHR ''f'' \<in> set integer_digits \<or> CHR ''f'' = space)"
      by (simp add: integer_digits_def)
    with True have nof: "CHR ''f'' \<notin> set buffer"
      unfolding list_all_iff by blast
    then have "count_list buffer (CHR ''f'') = 0" "CHR ''f'' \<notin> set (butlast buffer)"
      by (auto dest: in_set_butlastD)
    moreover have "\<not> float_token_error (parse_number data)"
    proof (cases "py_int buffer")
      case (Inl e)
      then have "e = ValueError" by (rule py_int_error)
      then have "parse_number data = Inl ValueError"
        using True loop Inl by (simp add: parse_number_def)
      then show ?thesis by (simp add: float_token_error_def)
    next
      case (Inr i)
      then have "parse_number data = Inr (PyInt i, data')"
        using True loop by (simp add: parse_number_def)
      then show ?thesis by (simp add: float_token_error_def)
    qed
    ultimately show ?thesis using loop by simp
  next
    case False
    have "float_token_error (parse_number data) = float_token_error (parse_float buffer)"
    proof (cases "parse_float buffer")
      case (Inl e)
      then have "parse_number data = Inl e"
        using False loop by (simp add: parse_number_def)
      then show ?thesis using Inl by (simp add: float_token_error_def)
    next
      case (Inr v)
      then have "parse_number data = Inr (v, data')"
        using False loop by (simp add: parse_number_def)
      then show ?thesis using Inr by (simp add: float_token_error_def)
    qed
    then show ?thesis using loop by (simp add: parse_float_token_error)
  qed
qed

text \<open>
  C5. With the buffer that \<^verbatim>\<open>parse_number\<close> accumulates from the queue, number parsing
  raises a float-token error exactly when \<^verbatim>\<open>f\<close> occurs in the buffer more than once or at
  a position other than the last. And \<^verbatim>\<open>4\<close> is the integer 4, \<^verbatim>\<open>4f\<close> the float 4.0,
  \<^verbatim>\<open>4.5\<close> the float 4.5, \<^verbatim>\<open>2e-5\<close> the float 2e-5, while \<^verbatim>\<open>4ff\<close> and \<^verbatim>\<open>4f5\<close> fail with
  the float-token errors.
\<close>

theorem parse_number_float_token:
  "(float_token_error (parse_number data) \<longleftrightarrow>
     (1 < count_list (snd (parse_number_loop data [])) (CHR ''f'') \<or>
      CHR ''f'' \<in> set (butlast (snd (parse_number_loop data []))))) \<and>
   parse_number ''4'' = Inr (PyInt 4, []) \<and>
   parse_number ''4f'' = Inr (PyFloat 4, []) \<and>
   parse_number ''4.5'' = Inr (PyFloat (45 / 10), []) \<and>
   parse_number ''2e-5'' = Inr (PyFloat (2 / 10 ^ 5), []) \<and>
   parse_number ''4ff'' = Inl Float_token_too_many \<and>
   parse_number ''4f5'' = Inl Float_token_misplaced"
proof -
  have 1: "parse_number ''4'' = Inr (PyInt 4, [])" by code_simp
  have 2: "parse_number ''4f'' = Inr (PyFloat 4, [])" by code_simp
  have 3: "parse_number ''4.5'' = Inr (PyFloat (45 / 10), [])" by code_simp
  have 4: "parse_number ''2e-5'' = Inr (PyFloat (2 / 10 ^ 5), [])" by code_simp
  have 5: "parse_number ''4ff'' = Inl Float_token_too_many" by code_simp
  have 6: "parse_number ''4f5'' = Inl Float_token_misplaced" by code_simp
  show ?thesis using parse_number_token_error 1 2 3 4 5 6 by blast
qed

lemma parse_number_loop_append:
  "\<forall>c \<in> set buf. c \<in> set float_digits \<or> c = space \<Longrightarrow>
     parse_number_loop (buf @ rest) acc = parse_number_loop rest (acc @ buf)"
  by (induction buf arbitrary: acc) (simp_all add: push_def)

lemma parse_number_loop_stop:
  "rest = [] \<or> \<not> (hd rest \<in> set float_digits \<or> hd rest = space) \<Longrightarrow>
     parse_number_loop rest acc = (rest, acc)"
  by (cases rest) auto

lemma integer_digit_facts:
  "c \<in> set integer_digits \<Longrightarrow>
     isdigit c \<and> \<not> isspace c \<and> c \<noteq> CHR ''-'' \<and> c \<noteq> CHR ''+'' \<and> c \<in> set float_digits"
  by (auto simp: integer_digits_def float_digits_def isdigit_def isspace_def)

lemma isspace_space: "isspace space" "\<not> isdigit space" "space \<notin> set integer_digits"
  by (simp_all add: isspace_def isdigit_def integer_digits_def)

lemma dropWhile_isspace_replicate:
  "dropWhile isspace (replicate a space @ xs) = dropWhile isspace xs"
  by (induction a) (simp_all add: isspace_space)

lemma strip_padded:
  assumes "ds \<noteq> []" "\<not> isspace (hd ds)" "\<not> isspace (last ds)"
  shows "strip (replicate a space @ ds @ replicate b space) = ds"
proof -
  have "dropWhile isspace (ds @ replicate b space) = ds @ replicate b space"
    using assms(1,2) by (cases ds) simp_all
  then have 1: "dropWhile isspace (replicate a space @ ds @ replicate b space) = ds @ replicate b space"
    by (simp only: dropWhile_isspace_replicate)
  have "dropWhile isspace (rev ds) = rev ds"
    using assms(1,3) by (cases ds rule: rev_cases) simp_all
  then have 2: "dropWhile isspace (rev (ds @ replicate b space)) = rev ds"
    by (simp only: rev_append rev_replicate dropWhile_isspace_replicate)
  show ?thesis by (simp only: strip_def 1 2 rev_rev_ident)
qed

lemma parse_number_padded:
  assumes "ds \<noteq> []" and "set ds \<subseteq> set integer_digits"
    and "rest = [] \<or> \<not> (hd rest \<in> set float_digits \<or> hd rest = space)"
    and "length ds \<le> int_max_str_digits"
  shows "parse_number (replicate a space @ ds @ replicate b space @ rest)
           = Inr (PyInt (digits_val ds), rest)"
proof -
  let ?buf = "replicate a space @ ds @ replicate b space"
  have fd: "\<forall>c \<in> set ?buf. c \<in> set float_digits \<or> c = space"
    using assms(2) integer_digit_facts by auto
  have loop: "parse_number_loop (?buf @ rest) [] = (rest, ?buf)"
    using parse_number_loop_append [OF fd, of rest "[]"] parse_number_loop_stop [OF assms(3)]
    by simp
  have all: "list_all (\<lambda>x. x \<in> set integer_digits \<or> x = space) ?buf"
    using assms(2) by (auto simp: list_all_iff)
  have hd_in: "hd ds \<in> set integer_digits" "last ds \<in> set integer_digits"
    using assms(1,2) by auto
  have st: "strip ?buf = ds"
    using strip_padded assms(1) hd_in integer_digit_facts by blast
  have sg: "split_sign ds = (1, ds)"
    using assms(1) hd_in(1) integer_digit_facts [of "hd ds"] by (cases ds) auto
  have dg: "list_all isdigit ds"
    using assms(2) integer_digit_facts by (auto simp: list_all_iff)
  have "py_int ?buf = Inr (digits_val ds)"
    using assms(1,4) by (simp add: py_int_def st sg dg)
  then show ?thesis
    using loop all by (simp add: parse_number_def)
qed

lemma parse_number_inner_space:
  assumes "ds \<noteq> []" and "set ds \<subseteq> set integer_digits"
    and "ds' \<noteq> []" and "set ds' \<subseteq> set integer_digits"
    and "rest = [] \<or> \<not> (hd rest \<in> set float_digits \<or> hd rest = space)"
  shows "parse_number (ds @ replicate (Suc k) space @ ds' @ rest) = Inl ValueError"
proof -
  let ?buf = "ds @ replicate (Suc k) space @ ds'"
  have fd: "\<forall>c \<in> set ?buf. c \<in> set float_digits \<or> c = space"
    using assms(2,4) integer_digit_facts by auto
  have loop: "parse_number_loop (?buf @ rest) [] = (rest, ?buf)"
    using parse_number_loop_append [OF fd, of rest "[]"] parse_number_loop_stop [OF assms(5)]
    by simp
  have all: "list_all (\<lambda>x. x \<in> set integer_digits \<or> x = space) ?buf"
    using assms(2,4) by (auto simp: list_all_iff)
  have ends: "hd ?buf \<in> set integer_digits" "last ?buf \<in> set integer_digits"
    using assms(1-4) by auto
  have ne: "?buf \<noteq> []" using assms(1) by simp
  have "strip (replicate 0 space @ ?buf @ replicate 0 space) = ?buf"
    using strip_padded [OF ne] ends integer_digit_facts by blast
  then have st: "strip ?buf = ?buf" by simp
  obtain c cs where buf: "?buf = c # cs" using ne by (cases ?buf) auto
  then have "c \<in> set integer_digits" using ends(1) by simp
  then have sg: "split_sign ?buf = (1, ?buf)"
    using buf integer_digit_facts [of c] by simp
  have "\<not> list_all isdigit ?buf"
    by (simp add: isspace_space)
  then have "py_int ?buf = Inl ValueError"
    by (simp only: py_int_def st sg prod.case) simp
  then show ?thesis
    using loop all by (simp add: parse_number_def)
qed

text \<open>
  C2, amended. When the buffer is a non-empty run of decimal digits, no longer than the
  interpreter's limit for integer conversion (4300 digits), with spaces only before and
  after it (the queue ending there, or going on with a character the number loop does not
  take), \<^verbatim>\<open>parse_number\<close> succeeds and returns the base-10 integer of the digits, leaving
  the rest of the queue. When spaces stand between two runs of digits, as in the buffer
  \<^verbatim>\<open>1 2\<close>, the conversion raises \<^verbatim>\<open>ValueError\<close>.
\<close>

theorem parse_number_padded_integer:
  assumes "ds \<noteq> []" and "set ds \<subseteq> set integer_digits"
    and "ds' \<noteq> []" and "set ds' \<subseteq> set integer_digits"
    and "rest = [] \<or> \<not> (hd rest \<in> set float_digits \<or> hd rest = space)"
    and "length ds \<le> int_max_str_digits"
  shows "parse_number (replicate a space @ ds @ replicate b space @ rest)
           = Inr (PyInt (digits_val ds), rest) \<and>
         parse_number (ds @ replicate (Suc k) space @ ds' @ rest) = Inl ValueError"
  using parse_number_padded [OF assms(1,2,5,6)] parse_number_inner_space [OF assms(1-5)]
  by simp

theorem parse_number_padded_integer_witness:
  "parse_number '' 12  ,3'' = Inr (PyInt 12, '',3'') \<and> parse_number ''12 2,3'' = Inl ValueError"
proof -
  have "parse_number (replicate (Suc 0) space @ ''12'' @ replicate (Suc (Suc 0)) space @ '',3'')
           = Inr (PyInt (digits_val ''12''), '',3'') \<and>
        parse_number (''12'' @ replicate (Suc 0) space @ ''2'' @ '',3'') = Inl ValueError"
    by (rule parse_number_padded_integer)
      (simp_all add: integer_digits_def float_digits_def int_max_str_digits_def)
  then show ?thesis by (simp add: digits_val_def digit_val_def)
qed

text \<open>
  C2, as the claim states it: the buffer \<^verbatim>\<open>1 2\<close> consists of digits and spaces only, and
  the conversion \<^verbatim>\<open>int("1 2")\<close> raises \<^verbatim>\<open>ValueError\<close>: a space between digits is not
  ignored.
\<close>

theorem parse_number_inner_space_counterexample:
  "list_all (\<lambda>x. x \<in> set integer_digits \<or> x = space) (snd (parse_number_loop ''1 2'' [])) \<and>
   parse_number ''1 2'' = Inl ValueError"
  by code_simp

section \<open>Strings\<close>

lemma parse_string_loop_before_start:
  "is_quote opn \<Longrightarrow> list_all (\<lambda>c. \<not> is_quote c) pre \<Longrightarrow>
     parse_string_loop (pre @ opn # xs) buffer False e = parse_string_loop xs buffer True False"
  by (induction pre arbitrary: e) (auto simp: is_quote_def)

lemma parse_string_loop_body:
  "is_quote cls \<Longrightarrow> \<not> has_unescaped_quote e body \<Longrightarrow> \<not> escaped_after e body \<Longrightarrow>
     parse_string_loop (body @ cls # rest) buffer True e
       = Inr (PyStr (buffer @ string_content e body), rest)"
proof (induction body arbitrary: buffer e)
  case Nil
  then show ?case by (auto simp: is_quote_def)
next
  case (Cons c cs)
  define e' where "e' = (c = backslash \<and> \<not> e)"
  define b' where "b' =
    (if c \<in> set invalid_chars then buffer
     else if c = backslash \<and> \<not> e then buffer else buffer @ [c])"
  from Cons.prems have nq: "\<not> (is_quote c \<and> \<not> e)"
    and rest: "\<not> has_unescaped_quote e' cs" "\<not> escaped_after e' cs"
    by (auto simp: e'_def split: if_splits)
  have step: "parse_string_loop ((c # cs) @ cls # rest) buffer True e
      = parse_string_loop (cs @ cls # rest) b' True e'"
    using nq by (auto simp: e'_def b'_def is_quote_def push_def)
  have cont: "buffer @ string_content e (c # cs) = b' @ string_content e' cs"
    by (auto simp: e'_def b'_def invalid_chars_def)
  have "parse_string_loop (cs @ cls # rest) b' True e' = Inr (PyStr (b' @ string_content e' cs), rest)"
    using Cons.IH [OF Cons.prems(1) rest] .
  then show ?case by (simp only: step cont)
qed

lemma parse_string_general:
  assumes "is_quote opn" and "is_quote cls"
    and "list_all (\<lambda>c. \<not> is_quote c) pre"
    and "\<not> has_unescaped_quote False body" and "\<not> escaped_after False body"
  shows "parse_string (pre @ opn # body @ cls # rest) = Inr (PyStr (string_content False body), rest)"
  using assms
  by (simp add: parse_string_def parse_string_loop_before_start parse_string_loop_body)

lemma escaped_quote_step:
  "is_quote q \<Longrightarrow>
     parse_string_loop (q # data) buffer True True = parse_string_loop data (push buffer q) True False"
  by (auto simp: is_quote_def invalid_chars_def)

text \<open>
  C6. After the opening quote (the first quote character of the queue, of either style),
  \<^verbatim>\<open>parse_string\<close> returns at the first unescaped quote character, of either style: when
  the body before it has no unescaped quote and does not end in the escaped state, the
  result is the text of the body and the queue after the closing quote. A quote read in
  the escaped state is pushed to the buffer and the loop goes on. The input
  \<^verbatim>\<open>value: "a\"b";\<close> yields a node whose value is the string \<^verbatim>\<open>a"b\<close>.
\<close>

theorem parse_string_first_unescaped_quote:
  assumes "is_quote opn" and "is_quote cls"
    and "list_all (\<lambda>c. \<not> is_quote c) pre"
    and "\<not> has_unescaped_quote False body" and "\<not> escaped_after False body"
    and "8 \<le> n"
  shows "parse_string (pre @ opn # body @ cls # rest)
           = Inr (PyStr (string_content False body), rest) \<and>
         parse_string_loop (cls # rest) buffer True True
           = parse_string_loop rest (push buffer cls) True False \<and>
         parse n (''value: \"a'' @ [backslash] @ ''\"b\";'')
           = Some (Inr (PyNode (BONNode (Some ''value'') (PyStr ''a\"b'')), []))"
proof -
  have 1: "parse 8 (''value: \"a'' @ [backslash] @ ''\"b\";'')
      = Some (Inr (PyNode (BONNode (Some ''value'') (PyStr ''a\"b'')), []))"
    by code_simp
  show ?thesis
    using parse_string_general [OF assms(1-5)] escaped_quote_step [OF assms(2)]
      parse_fuel [OF 1 assms(6)]
    by simp
qed

theorem parse_string_first_unescaped_quote_witness:
  "parse_string ('' '' @ [squote] @ ''a'' @ [backslash] @ ''\"b\";'') = Inr (PyStr ''a\"b'', '';'') \<and>
   parse_string_loop ''\";'' ''a'' True True = parse_string_loop '';'' ''a\"'' True False \<and>
   parse 8 (''value: \"a'' @ [backslash] @ ''\"b\";'')
     = Some (Inr (PyNode (BONNode (Some ''value'') (PyStr ''a\"b'')), []))"
  using parse_string_first_unescaped_quote
    [of squote dquote "'' ''" "[CHR ''a'', backslash, dquote, CHR ''b'']" 8 "'';''" "''a''"]
  by (simp add: is_quote_def push_def)

section \<open>Lists, nodes and objects\<close>

text \<open>
  C7. The input \<^verbatim>\<open>{value: "x"}\<close> has no \<^verbatim>\<open>;\<close> after the node's value, and parsing it
  raises the error of the missing node terminator; the input \<^verbatim>\<open>{value: "x";\<close> has no
  closing brace, and parsing it raises the error of the missing closing brace. This is
  the outcome for every amount of fuel from 11 on.
\<close>

theorem missing_terminators:
  assumes "11 \<le> n"
  shows "parse n ''{value: \"x\"}'' = Some (Inl Expected_semicolon) \<and>
         parse n ''{value: \"x\";'' = Some (Inl Expected_close_brace)"
proof -
  have 1: "parse 11 ''{value: \"x\"}'' = Some (Inl Expected_semicolon)" by code_simp
  have 2: "parse 11 ''{value: \"x\";'' = Some (Inl Expected_close_brace)" by code_simp
  show ?thesis using parse_fuel [OF 1 assms] parse_fuel [OF 2 assms] by simp
qed

theorem missing_terminators_witness:
  "parse 11 ''{value: \"x\"}'' = Some (Inl Expected_semicolon) \<and>
   parse 11 ''{value: \"x\";'' = Some (Inl Expected_close_brace)"
  using missing_terminators [of 11] by simp










text \<open>
  C1, as the claim states it: for the input \<^verbatim>\<open>{}\<close> the object routine would return an
  empty object and raise nothing. It raises: after the opening brace the routine asks
  the classifier for a node at once, and \<^verbatim>\<open>}\<close> is not one. The same holds for the parse
  of \<^verbatim>\<open>{}\<close> from the top.
\<close>

theorem parse_object_empty_braces_counterexample:
  "parse_object 10 ''{}'' = Some (Inl TypeError) \<and> parse 10 ''{}'' = Some (Inl TypeError)"
  by code_simp

lemma parse_object_loop_started_closing:
  "a < n \<Longrightarrow>
     parse_object_loop n (replicate a space @ CHR ''}'' # data) nodes_acc True
       = Some (Inr (PyObject (BONObject nodes_acc), data))"
proof (induction a arbitrary: n)
  case 0
  then obtain k where "n = Suc k" by (cases n) auto
  then show ?case by simp
next
  case (Suc a)
  then obtain k where n: "n = Suc k" and "a < k" by (cases n) auto
  then show ?case using Suc.IH [of k] by simp
qed

text \<open>
  C1, amended. Once the opening brace has been found (and the node that must follow it
  parsed), whenever the next character after any spaces is \<^verbatim>\<open>}\<close>, the object routine
  consumes it and returns the object of the nodes collected so far, without an error; so
  \<^verbatim>\<open>{a: 1;}\<close> is the object with the node \<^verbatim>\<open>a: 1;\<close>. Directly after the opening brace the
  routine does not look for \<^verbatim>\<open>}\<close> and requires a node: the input \<^verbatim>\<open>{}\<close> raises an error
  and returns no object.
\<close>

theorem parse_object_closing_brace:
  assumes "5 \<le> n" and "a < n"
  shows "parse_object_loop n (replicate a space @ CHR ''}'' # data) nodes_acc True
           = Some (Inr (PyObject (BONObject nodes_acc), data)) \<and>
         parse_object n ''{a: 1;}''
           = Some (Inr (PyObject (BONObject [PyNode (BONNode (Some ''a'') (PyInt 1))]), [])) \<and>
         (\<exists>e. parse_object n ''{}'' = Some (Inl e))"
proof -
  have 1: "parse_object_loop 5 ''{}'' [] False = Some (Inl TypeError)" by code_simp
  have 2: "parse_object_loop 5 ''{a: 1;}'' [] False
      = Some (Inr (PyObject (BONObject [PyNode (BONNode (Some ''a'') (PyInt 1))]), []))"
    by code_simp
  have "parse_object_loop n ''{}'' [] False = Some (Inl TypeError)"
    using parse_object_loop_fuel [OF 1 assms(1)] .
  moreover have "parse_object_loop n ''{a: 1;}'' [] False
      = Some (Inr (PyObject (BONObject [PyNode (BONNode (Some ''a'') (PyInt 1))]), []))"
    using parse_object_loop_fuel [OF 2 assms(1)] .
  ultimately show ?thesis
    using parse_object_loop_started_closing [OF assms(2)] by (simp add: parse_object_def)
qed

theorem parse_object_closing_brace_witness:
  "parse_object_loop 5 ''  }; x'' [PyNode (BONNode (Some ''a'') (PyInt 1))] True
     = Some (Inr (PyObject (BONObject [PyNode (BONNode (Some ''a'') (PyInt 1))]), ''; x'')) \<and>
   parse_object 5 ''{a: 1;}''
     = Some (Inr (PyObject (BONObject [PyNode (BONNode (Some ''a'') (PyInt 1))]), [])) \<and>
   (\<exists>e. parse_object 5 ''{}'' = Some (Inl e))"
  using parse_object_closing_brace
    [of 5 "Suc (Suc 0)" "''; x''" "[PyNode (BONNode (Some ''a'') (PyInt 1))]"]
  by simp

end
